theory Spec2Isabelle
  imports Main
begin

section \<open>Data model\<close>

text \<open>
  The development covers \<open>providers/aws/elb.go\<close>: the load-balancer reaper (package
  \<open>aws\<close>) and the VPC reaper (package \<open>vpc\<close>). Pointers returned by the AWS SDK
  (\<open>*string\<close>, \<open>*time.Time\<close>) are modelled by the values they point to; a time is a
  number of seconds (\<open>int\<close>); Go's 64-bit \<open>int\<close>/\<open>int64\<close> are HOL integers, the
  only producer of such values being \<open>Atoi\<close>, whose range check is written out.
\<close>

type_synonym tag = "string \<times> string"  \<comment> \<open>\<open>Key\<close>, \<open>Value\<close>\<close>

abbreviation Key :: "tag \<Rightarrow> string" where "Key \<equiv> fst"
abbreviation Value :: "tag \<Rightarrow> string" where "Value \<equiv> snd"

text \<open>\<open>elbv2.LoadBalancer\<close>, the fields the code reads.\<close>

record LoadBalancer =
  LoadBalancerArn :: string
  LoadBalancerName :: string
  LbCreatedTime :: int
  StateCode :: string

text \<open>\<open>ec2.Vpc\<close>, the fields the code reads.\<close>

record Vpc =
  Vpc_VpcId :: string
  Vpc_State :: string
  Vpc_Tags :: "tag list"

record ElasticLoadBalancer =
  Arn :: string
  Name :: string
  CreatedTime :: int
  Status :: string
  TTL :: int

text \<open>
  The declarations of \<open>SecurityGroup\<close>, \<open>InternetGateway\<close>, \<open>Subnet\<close> and
  \<open>RouteTable\<close> are not part of the file; a sub-resource is represented by its
  provider identity.
\<close>

type_synonym SecurityGroup = string
type_synonym InternetGateway = string
type_synonym Subnet = string
type_synonym RouteTable = string

record VpcInfo =
  VpcId :: string
  SecurityGroups :: "SecurityGroup list"
  InternetGateways :: "InternetGateway list"
  Subnets :: "Subnet list"
  RouteTables :: "RouteTable list"
  VpcStatus :: string
  VpcTTL :: int
  Tag :: string

section \<open>Errors, log entries, provider calls\<close>

datatype error =
    ProviderError string          \<comment> \<open>an error returned by an SDK call\<close>
  | ErrSyntax string              \<comment> \<open>\<open>strconv.ErrSyntax\<close> of \<open>Atoi\<close>\<close>
  | ErrRange string               \<comment> \<open>\<open>strconv.ErrRange\<close> of \<open>Atoi\<close>\<close>
  | ErrLoadBalancerList string    \<comment> \<open>"Error while getting loadbalancer list on region %s"\<close>
  | ErrCantListLoadBalancers error \<comment> \<open>"can't list Load Balancers: %s"\<close>
  | ErrCantListVPC error          \<comment> \<open>"can't list VPC: %s"\<close>

text \<open>A Go call either returns or panics (index out of range).\<close>

datatype 'a outcome = Returns 'a | Panics string

datatype level = DebugLevel | WarnLevel | ErrorLevel

datatype arg = S string | N nat | E error

type_synonym entry = "level \<times> string \<times> arg list"  \<comment> \<open>level, format string, arguments\<close>

datatype call =
    DescribeLoadBalancers
  | DescribeTags string
  | DeleteLoadBalancer string
  | DescribeVpcs string
  | DescribeSecurityGroups string
  | DescribeInternetGateways string
  | DescribeSubnets string
  | DescribeRouteTables string
  | DeleteSecurityGroup string
  | DeleteInternetGateway string
  | DeleteSubnet string
  | DeleteRouteTable string
  | DeleteVpc string

text \<open>
  The provider (the \<open>elbv2.ELBV2\<close> and \<open>ec2.EC2\<close> sessions) is an opaque interface.
  Its answers to the discovery calls are fixed for the duration of a pass; the outcome
  of a delete call (\<open>None\<close> for success, \<open>Some msg\<close> for a failure) may depend on
  every call issued before it, so that "still in use" and "already deleted" failures
  can be expressed.
\<close>

record provider =
  Region :: string
  describeLoadBalancers :: "string + LoadBalancer list"
  describeTags :: "string \<Rightarrow> string + tag list list"  \<comment> \<open>\<open>TagDescriptions\<close>, each its \<open>Tags\<close>\<close>
  describeVpcs :: "string \<Rightarrow> string + Vpc list"
  describeSecurityGroups :: "string \<Rightarrow> string + SecurityGroup list"
  describeInternetGateways :: "string \<Rightarrow> string + InternetGateway list"
  describeSubnets :: "string \<Rightarrow> string + Subnet list"
  describeRouteTables :: "string \<Rightarrow> string + RouteTable list"
  deleteError :: "call list \<Rightarrow> call \<Rightarrow> string option"

text \<open>What a pass leaves behind: the provider calls it issued and its log, both in order.\<close>

record world =
  calls :: "call list"
  logs :: "entry list"

definition logf :: "level \<Rightarrow> string \<Rightarrow> arg list \<Rightarrow> world \<Rightarrow> world" where
  "logf l fmt args w = w\<lparr>logs := logs w @ [(l, fmt, args)]\<rparr>"

definition issue :: "call \<Rightarrow> world \<Rightarrow> world" where
  "issue c w = w\<lparr>calls := calls w @ [c]\<rparr>"

text \<open>A delete call: the provider's verdict on it, and the call recorded.\<close>

definition delete :: "provider \<Rightarrow> call \<Rightarrow> world \<Rightarrow> string option \<times> world" where
  "delete p c w = (deleteError p (calls w) c, issue c w)"

section \<open>Library functions of Go\<close>

text \<open>
  \<open>strconv.Atoi\<close> (64-bit \<open>int\<close>): an optional sign, then at least one decimal digit
  and nothing else; \<open>ErrSyntax\<close> otherwise, \<open>ErrRange\<close> when the value does not fit.
\<close>

definition isDigit :: "char \<Rightarrow> bool" where
  "isDigit c = (48 \<le> (of_char c :: nat) \<and> (of_char c :: nat) \<le> 57)"

definition digitsValue :: "string \<Rightarrow> int" where
  "digitsValue ds = foldl (\<lambda>n ch. n * 10 + (int (of_char ch) - 48)) 0 ds"

definition Atoi :: "string \<Rightarrow> error + int" where
  "Atoi s =
    (let neg = (s \<noteq> [] \<and> hd s = CHR ''-'');
         ds = (if s \<noteq> [] \<and> (hd s = CHR ''-'' \<or> hd s = CHR ''+'') then tl s else s)
     in if ds = [] then Inl (ErrSyntax s)
        else if list_ex (\<lambda>ch. \<not> isDigit ch) ds then Inl (ErrSyntax s)
        else let n = (if neg then - digitsValue ds else digitsValue ds)
             in if n < - (2 ^ 63) \<or> 2 ^ 63 - 1 < n then Inl (ErrRange s) else Inr n)"

text \<open>
  \<open>strings.EqualFold\<close> on ASCII letters. The code compares with the constant \<open>"ttl"\<close>
  only, whose letters have no other case variant in Unicode's simple folding.
\<close>

definition toLower :: "char \<Rightarrow> char" where
  "toLower c =
    (if 65 \<le> (of_char c :: nat) \<and> (of_char c :: nat) \<le> 90 then char_of ((of_char c :: nat) + 32) else c)"

definition EqualFold :: "string \<Rightarrow> string \<Rightarrow> bool" where
  "EqualFold s t = (map toLower s = map toLower t)"

section \<open>Expiration evaluator\<close>

text \<open>
  Modelled from the spec: \<open>utils.CheckIfExpired\<close> (package \<open>utils\<close> is not part of the
  file). The spec's contract for \<open>isExpired(createdAt, ttlSeconds, now)\<close>: false
  whenever \<open>ttlSeconds < 0\<close>, otherwise true iff \<open>now >= createdAt + ttlSeconds\<close>. The
  code's call \<open>CheckIfExpired(lb.CreatedTime, lb.TTL)\<close> reads the clock itself; the
  reading is the third argument here.
\<close>

definition CheckIfExpired :: "int \<Rightarrow> int \<Rightarrow> int \<Rightarrow> bool" where
  "CheckIfExpired createdAt ttlSeconds now =
    (if ttlSeconds < 0 then False else createdAt + ttlSeconds \<le> now)"

section \<open>Load balancers\<close>

definition ListLoadBalancers ::
  "provider \<Rightarrow> world \<Rightarrow> (error + ElasticLoadBalancer list) \<times> world" where
  "ListLoadBalancers lbSession w =
    (let w1 = logf DebugLevel ''Listing all Loadbalancers in region %s'' [S (Region lbSession)] w;
         w2 = issue DescribeLoadBalancers w1
     in case describeLoadBalancers lbSession of
          Inl err \<Rightarrow> (Inl (ProviderError err), w2)
        | Inr result \<Rightarrow>
            if length result = 0 then (Inr [], w2)
            else (Inr (map (\<lambda>currentLb.
                    \<lparr>Arn = LoadBalancerArn currentLb,
                     Name = LoadBalancerName currentLb,
                     CreatedTime = LbCreatedTime currentLb,
                     Status = StateCode currentLb,
                     TTL = - 1\<rparr>) result), w2))"

text \<open>
  The inner loop of \<open>listTaggedLoadBalancers\<close>, over the tags of one load balancer.
  \<open>currentLb\<close> is the loop variable of the outer loop: an assignment to its \<open>TTL\<close>
  stays for the following tags.
\<close>

fun listTaggedLoadBalancers_tags ::
  "provider \<Rightarrow> string \<Rightarrow> tag list \<Rightarrow> ElasticLoadBalancer \<Rightarrow> ElasticLoadBalancer list \<Rightarrow> world
    \<Rightarrow> ElasticLoadBalancer list \<times> world" where
  "listTaggedLoadBalancers_tags lbSession tagName [] currentLb taggedLoadBalancers w =
    (taggedLoadBalancers, w)"
| "listTaggedLoadBalancers_tags lbSession tagName (contentTag # tags) currentLb taggedLoadBalancers w =
    (if Value contentTag = tagName then
       (case Atoi (Value contentTag) of
          Inl err \<Rightarrow>
            listTaggedLoadBalancers_tags lbSession tagName tags currentLb taggedLoadBalancers
              (logf ErrorLevel ''Bad %s value on load balancer %s (%s), can't use it, it should be a number''
                 [S tagName, S (Name currentLb), S (Region lbSession)] w)
        | Inr ttlInt \<Rightarrow>
            listTaggedLoadBalancers_tags lbSession tagName tags (currentLb\<lparr>TTL := ttlInt\<rparr>)
              (taggedLoadBalancers @ [currentLb\<lparr>TTL := ttlInt\<rparr>]) w)
     else listTaggedLoadBalancers_tags lbSession tagName tags currentLb taggedLoadBalancers w)"

text \<open>The outer loop; \<open>result.TagDescriptions[0]\<close> panics on an empty answer.\<close>

fun listTaggedLoadBalancers_loop ::
  "provider \<Rightarrow> string \<Rightarrow> ElasticLoadBalancer list \<Rightarrow> ElasticLoadBalancer list \<Rightarrow> world
    \<Rightarrow> ElasticLoadBalancer list outcome \<times> world" where
  "listTaggedLoadBalancers_loop lbSession tagName [] taggedLoadBalancers w =
    (Returns taggedLoadBalancers, w)"
| "listTaggedLoadBalancers_loop lbSession tagName (currentLb # rest) taggedLoadBalancers w =
    (case describeTags lbSession (Arn currentLb) of
       Inl err \<Rightarrow>
         listTaggedLoadBalancers_loop lbSession tagName rest taggedLoadBalancers
           (logf ErrorLevel ''Error while getting load balancer tags from %s'' [S (Name currentLb)]
              (issue (DescribeTags (Arn currentLb)) w))
     | Inr TagDescriptions \<Rightarrow>
         (case TagDescriptions of
            [] \<Rightarrow> (Panics ''index out of range [0] with length 0'', issue (DescribeTags (Arn currentLb)) w)
          | Tags # _ \<Rightarrow>
              (case listTaggedLoadBalancers_tags lbSession tagName Tags currentLb taggedLoadBalancers
                      (issue (DescribeTags (Arn currentLb)) w) of
                 (taggedLoadBalancers', w') \<Rightarrow>
                   listTaggedLoadBalancers_loop lbSession tagName rest taggedLoadBalancers' w')))"

definition listTaggedLoadBalancers ::
  "provider \<Rightarrow> string \<Rightarrow> world \<Rightarrow> (error + ElasticLoadBalancer list) outcome \<times> world" where
  "listTaggedLoadBalancers lbSession tagName w =
    (case ListLoadBalancers lbSession w of
       (Inl err, w1) \<Rightarrow> (Returns (Inl (ErrLoadBalancerList (Region lbSession))), w1)
     | (Inr allLoadBalancers, w1) \<Rightarrow>
         (case listTaggedLoadBalancers_loop lbSession tagName allLoadBalancers [] w1 of
            (Panics msg, w2) \<Rightarrow> (Panics msg, w2)
          | (Returns taggedLoadBalancers, w2) \<Rightarrow> (Returns (Inr taggedLoadBalancers), w2)))"

text \<open>The loop of \<open>deleteLoadBalancers\<close>: it returns at the first failed delete.\<close>

fun deleteLoadBalancers_loop ::
  "provider \<Rightarrow> ElasticLoadBalancer list \<Rightarrow> world \<Rightarrow> error option \<times> world" where
  "deleteLoadBalancers_loop lbSession [] w = (None, w)"
| "deleteLoadBalancers_loop lbSession (lb # rest) w =
    (case delete lbSession (DeleteLoadBalancer (Arn lb)) w of
       (Some err, w') \<Rightarrow> (Some (ProviderError err), w')
     | (None, w') \<Rightarrow> deleteLoadBalancers_loop lbSession rest w')"

definition deleteLoadBalancers ::
  "provider \<Rightarrow> ElasticLoadBalancer list \<Rightarrow> bool \<Rightarrow> world \<Rightarrow> error option \<times> world" where
  "deleteLoadBalancers lbSession loadBalancersList dryRun w =
    (if dryRun then (None, w)
     else if length loadBalancersList = 0 then (None, w)
     else deleteLoadBalancers_loop lbSession loadBalancersList w)"

text \<open>
  The loop of \<open>DeleteExpiredLoadBalancers\<close> over \<open>todo\<close>, the rest of \<open>lbs\<close>; the
  call to \<open>deleteLoadBalancers\<close> is given the whole of \<open>lbs\<close>, as in the source.
  \<open>now\<close> is the clock read by \<open>CheckIfExpired\<close>.
\<close>

fun DeleteExpiredLoadBalancers_loop ::
  "provider \<Rightarrow> ElasticLoadBalancer list \<Rightarrow> bool \<Rightarrow> int \<Rightarrow> ElasticLoadBalancer list \<Rightarrow> world \<Rightarrow> world" where
  "DeleteExpiredLoadBalancers_loop elbSession lbs dryRun now [] w = w"
| "DeleteExpiredLoadBalancers_loop elbSession lbs dryRun now (lb # todo) w =
    (if CheckIfExpired (CreatedTime lb) (TTL lb) now then
       (case deleteLoadBalancers elbSession lbs dryRun w of
          (Some err, w') \<Rightarrow>
            DeleteExpiredLoadBalancers_loop elbSession lbs dryRun now todo
              (logf ErrorLevel ''Deletion ELB %s (%s) error: %s''
                 [S (Name lb), S (Region elbSession), E err] w')
        | (None, w') \<Rightarrow> DeleteExpiredLoadBalancers_loop elbSession lbs dryRun now todo w')
     else
       DeleteExpiredLoadBalancers_loop elbSession lbs dryRun now todo
         (logf DebugLevel ''Load Balancer %s in %s, has not yet expired''
            [S (Name lb), S (Region elbSession)] w))"

definition DeleteExpiredLoadBalancers ::
  "provider \<Rightarrow> string \<Rightarrow> bool \<Rightarrow> int \<Rightarrow> world \<Rightarrow> error option outcome \<times> world" where
  "DeleteExpiredLoadBalancers elbSession tagName dryRun now w =
    (case listTaggedLoadBalancers elbSession tagName w of
       (Panics msg, w1) \<Rightarrow> (Panics msg, w1)
     | (Returns (Inl err), w1) \<Rightarrow> (Returns (Some (ErrCantListLoadBalancers err)), w1)
     | (Returns (Inr lbs), w1) \<Rightarrow>
         (Returns None, DeleteExpiredLoadBalancers_loop elbSession lbs dryRun now lbs w1))"

section \<open>VPCs\<close>

definition getVPCs :: "provider \<Rightarrow> string \<Rightarrow> world \<Rightarrow> Vpc list \<times> world" where
  "getVPCs ec2Session tagName w =
    (let w1 = logf DebugLevel ''Listing all VPCs'' [] w;
         w2 = issue (DescribeVpcs tagName) w1
     in case describeVpcs ec2Session tagName of
          Inl err \<Rightarrow> ([], logf ErrorLevel ''%s'' [S err] w2)
        | Inr result \<Rightarrow>
            if length result = 0 then ([], logf DebugLevel ''No VPCs were found'' [] w2)
            else (result, w2))"

text \<open>
  Modelled from the spec: the four tasks \<open>SetSecurityGroupsIdsByVpcId\<close>,
  \<open>SetInternetGatewaysIdsByVpcId\<close>, \<open>SetSubnetsIdsByVpcId\<close> and
  \<open>SetRouteTablesIdsByVpcId\<close> that \<open>getCompleteVpc\<close> launches and joins are not part
  of the file. By the spec (4.4) each queries the provider for the sub-resources of the
  container's identity and writes its result into its own field of the record; when the
  query fails that collection is left empty and a log entry is emitted. \<open>getCompleteVpc\<close>
  returns after all four have finished; the four write disjoint fields, so the record
  it leaves does not depend on their interleaving. The calls and log entries are
  recorded in the order in which the tasks are launched.
\<close>

definition resolveCategory ::
  "call \<Rightarrow> string + string list \<Rightarrow> world \<Rightarrow> string list \<times> world" where
  "resolveCategory query answer w =
    (case answer of
       Inl err \<Rightarrow> ([], logf ErrorLevel ''%s'' [S err] (issue query w))
     | Inr members \<Rightarrow> (members, issue query w))"

definition SetSecurityGroupsIdsByVpcId :: "provider \<Rightarrow> VpcInfo \<Rightarrow> world \<Rightarrow> VpcInfo \<times> world" where
  "SetSecurityGroupsIdsByVpcId ec2Session vpc w =
    (case resolveCategory (DescribeSecurityGroups (VpcId vpc))
            (describeSecurityGroups ec2Session (VpcId vpc)) w of
       (members, w') \<Rightarrow> (vpc\<lparr>SecurityGroups := members\<rparr>, w'))"

definition SetInternetGatewaysIdsByVpcId :: "provider \<Rightarrow> VpcInfo \<Rightarrow> world \<Rightarrow> VpcInfo \<times> world" where
  "SetInternetGatewaysIdsByVpcId ec2Session vpc w =
    (case resolveCategory (DescribeInternetGateways (VpcId vpc))
            (describeInternetGateways ec2Session (VpcId vpc)) w of
       (members, w') \<Rightarrow> (vpc\<lparr>InternetGateways := members\<rparr>, w'))"

definition SetSubnetsIdsByVpcId :: "provider \<Rightarrow> VpcInfo \<Rightarrow> world \<Rightarrow> VpcInfo \<times> world" where
  "SetSubnetsIdsByVpcId ec2Session vpc w =
    (case resolveCategory (DescribeSubnets (VpcId vpc))
            (describeSubnets ec2Session (VpcId vpc)) w of
       (members, w') \<Rightarrow> (vpc\<lparr>Subnets := members\<rparr>, w'))"

definition SetRouteTablesIdsByVpcId :: "provider \<Rightarrow> VpcInfo \<Rightarrow> world \<Rightarrow> VpcInfo \<times> world" where
  "SetRouteTablesIdsByVpcId ec2Session vpc w =
    (case resolveCategory (DescribeRouteTables (VpcId vpc))
            (describeRouteTables ec2Session (VpcId vpc)) w of
       (members, w') \<Rightarrow> (vpc\<lparr>RouteTables := members\<rparr>, w'))"

definition getCompleteVpc :: "provider \<Rightarrow> VpcInfo \<Rightarrow> world \<Rightarrow> VpcInfo \<times> world" where
  "getCompleteVpc ec2Session vpc w =
    (case SetSecurityGroupsIdsByVpcId ec2Session vpc w of (vpc1, w1) \<Rightarrow>
     case SetInternetGatewaysIdsByVpcId ec2Session vpc1 w1 of (vpc2, w2) \<Rightarrow>
     case SetSubnetsIdsByVpcId ec2Session vpc2 w2 of (vpc3, w3) \<Rightarrow>
     SetRouteTablesIdsByVpcId ec2Session vpc3 w3)"

text \<open>
  The first statement of the tag loop of \<open>listTaggedVPC\<close>: a tag whose key is
  \<open>ttl\<close> in any case sets the record's TTL when its value parses, and is logged
  otherwise.
\<close>

definition listTaggedVPC_ttl ::
  "provider \<Rightarrow> string \<Rightarrow> tag \<Rightarrow> VpcInfo \<Rightarrow> world \<Rightarrow> VpcInfo \<times> world" where
  "listTaggedVPC_ttl ec2Session vpcId tag taggedVpc w =
    (if EqualFold (Key tag) ''ttl'' then
       (case Atoi (Value tag) of
          Inl err \<Rightarrow>
            (taggedVpc,
             logf ErrorLevel ''Error while trying to convert tag value (%s) to integer on VPC %s in %v''
               [S (Value tag), S vpcId, S (Region ec2Session)] w)
        | Inr ttl \<Rightarrow> (taggedVpc\<lparr>VpcTTL := ttl\<rparr>, w))
     else (taggedVpc, w))"

text \<open>
  The tag loop of one VPC. \<open>taggedVpc\<close> is declared once per VPC, before the loop:
  what one tag writes into it stays for the tags after it. The \<open>continue\<close> of the
  empty-key branch skips \<open>getCompleteVpc\<close> and the append for that tag only.
\<close>

fun listTaggedVPC_tags ::
  "provider \<Rightarrow> string \<Rightarrow> string \<Rightarrow> tag list \<Rightarrow> VpcInfo \<Rightarrow> VpcInfo list \<Rightarrow> world
    \<Rightarrow> VpcInfo list \<times> world" where
  "listTaggedVPC_tags ec2Session tagName vpcId [] taggedVpc taggedVPCs w = (taggedVPCs, w)"
| "listTaggedVPC_tags ec2Session tagName vpcId (tag # tags) taggedVpc taggedVPCs w =
    (case listTaggedVPC_ttl ec2Session vpcId tag taggedVpc w of (taggedVpc1, w1) \<Rightarrow>
       if Key tag = tagName then
         (if Key tag = [] then
            listTaggedVPC_tags ec2Session tagName vpcId tags taggedVpc1 taggedVPCs
              (logf WarnLevel ''Tag %s was empty and it wasn't expected, skipping'' [S (Key tag)] w1)
          else
            (case getCompleteVpc ec2Session (taggedVpc1\<lparr>Tag := Value tag\<rparr>) w1 of (taggedVpc2, w2) \<Rightarrow>
               listTaggedVPC_tags ec2Session tagName vpcId tags taggedVpc2 (taggedVPCs @ [taggedVpc2]) w2))
       else
         (case getCompleteVpc ec2Session taggedVpc1 w1 of (taggedVpc2, w2) \<Rightarrow>
            listTaggedVPC_tags ec2Session tagName vpcId tags taggedVpc2 (taggedVPCs @ [taggedVpc2]) w2))"

text \<open>
  The record a VPC starts with: the literal of the source sets \<open>VpcId\<close> and \<open>Status\<close>;
  every other field has Go's zero value (\<open>nil\<close>, \<open>0\<close>, the empty string).
\<close>

definition newVpcInfo :: "Vpc \<Rightarrow> VpcInfo" where
  "newVpcInfo vpc =
    \<lparr>VpcId = Vpc_VpcId vpc, SecurityGroups = [], InternetGateways = [], Subnets = [],
     RouteTables = [], VpcStatus = Vpc_State vpc, VpcTTL = 0, Tag = []\<rparr>"

fun listTaggedVPC_loop ::
  "provider \<Rightarrow> string \<Rightarrow> Vpc list \<Rightarrow> VpcInfo list \<Rightarrow> world \<Rightarrow> VpcInfo list \<times> world" where
  "listTaggedVPC_loop ec2Session tagName [] taggedVPCs w = (taggedVPCs, w)"
| "listTaggedVPC_loop ec2Session tagName (vpc # rest) taggedVPCs w =
    (if Vpc_State vpc \<noteq> ''available'' then
       listTaggedVPC_loop ec2Session tagName rest taggedVPCs w
     else if length (Vpc_Tags vpc) = 0 then
       listTaggedVPC_loop ec2Session tagName rest taggedVPCs w
     else
       (case listTaggedVPC_tags ec2Session tagName (Vpc_VpcId vpc) (Vpc_Tags vpc) (newVpcInfo vpc)
               taggedVPCs w of
          (taggedVPCs', w') \<Rightarrow> listTaggedVPC_loop ec2Session tagName rest taggedVPCs' w'))"

definition listTaggedVPC :: "provider \<Rightarrow> string \<Rightarrow> world \<Rightarrow> (error + VpcInfo list) \<times> world" where
  "listTaggedVPC ec2Session tagName w =
    (case getVPCs ec2Session tagName w of (VPCs, w1) \<Rightarrow>
     case listTaggedVPC_loop ec2Session tagName VPCs [] w1 of (taggedVPCs, w2) \<Rightarrow>
       (Inr taggedVPCs,
        logf DebugLevel ''Found %d VPC cluster(s) in ready status with ttl tag''
          [N (length taggedVPCs)] w2))"

text \<open>
  Modelled from the spec: \<open>DeleteSecurityGroupsByIds\<close>, \<open>DeleteInternetGatewaysByIds\<close>,
  \<open>DeleteSubnetsByIds\<close> and \<open>DeleteRouteTablesByIds\<close> are not part of the file; they
  return nothing to \<open>deleteVPC\<close>. By the spec (4.5, step 6) the members of a category
  are deleted independently, one delete call each, and a failed delete is logged as a
  warning and does not stop the members after it.
\<close>

fun deleteMembers :: "provider \<Rightarrow> (string \<Rightarrow> call) \<Rightarrow> string list \<Rightarrow> world \<Rightarrow> world" where
  "deleteMembers ec2Session request [] w = w"
| "deleteMembers ec2Session request (member # rest) w =
    (case delete ec2Session (request member) w of
       (Some err, w') \<Rightarrow>
         deleteMembers ec2Session request rest (logf WarnLevel ''%s'' [S err] w')
     | (None, w') \<Rightarrow> deleteMembers ec2Session request rest w')"

definition DeleteSecurityGroupsByIds :: "provider \<Rightarrow> SecurityGroup list \<Rightarrow> world \<Rightarrow> world" where
  "DeleteSecurityGroupsByIds ec2Session securityGroups w =
    deleteMembers ec2Session DeleteSecurityGroup securityGroups w"

definition DeleteInternetGatewaysByIds :: "provider \<Rightarrow> InternetGateway list \<Rightarrow> world \<Rightarrow> world" where
  "DeleteInternetGatewaysByIds ec2Session internetGateways w =
    deleteMembers ec2Session DeleteInternetGateway internetGateways w"

definition DeleteSubnetsByIds :: "provider \<Rightarrow> Subnet list \<Rightarrow> world \<Rightarrow> world" where
  "DeleteSubnetsByIds ec2Session subnets w =
    deleteMembers ec2Session DeleteSubnet subnets w"

definition DeleteRouteTablesByIds :: "provider \<Rightarrow> RouteTable list \<Rightarrow> world \<Rightarrow> world" where
  "DeleteRouteTablesByIds ec2Session routeTables w =
    deleteMembers ec2Session DeleteRouteTable routeTables w"

text \<open>The \<open>for\<close> loop of \<open>deleteVPC\<close>.\<close>

fun deleteVPC_loop :: "provider \<Rightarrow> VpcInfo list \<Rightarrow> world \<Rightarrow> world" where
  "deleteVPC_loop ec2Session [] w = w"
| "deleteVPC_loop ec2Session (vpc # rest) w =
    (case delete ec2Session (DeleteVpc (VpcId vpc))
            (DeleteRouteTablesByIds ec2Session (RouteTables vpc)
              (DeleteSubnetsByIds ec2Session (Subnets vpc)
                (DeleteInternetGatewaysByIds ec2Session (InternetGateways vpc)
                  (DeleteSecurityGroupsByIds ec2Session (SecurityGroups vpc) w)))) of
       (Some err, w') \<Rightarrow>
         deleteVPC_loop ec2Session rest
           (logf WarnLevel ''Can't delete VPC %s in %s yet: %s''
              [S (VpcId vpc), S (Region ec2Session), S err] w')
     | (None, w') \<Rightarrow> deleteVPC_loop ec2Session rest w')"

text \<open>
  \<open>deleteVPC\<close>: after the loop, one more \<open>DeleteVpc\<close> of \<open>VpcList[0]\<close>; when that call
  fails the log statement reads \<open>VpcList[1]\<close>, which panics on a list of one.
\<close>

definition deleteVPC ::
  "provider \<Rightarrow> VpcInfo list \<Rightarrow> bool \<Rightarrow> world \<Rightarrow> error option outcome \<times> world" where
  "deleteVPC ec2Session VpcList dryRun w =
    (if dryRun then (Returns None, w)
     else if length VpcList = 0 then (Returns None, w)
     else
       (case delete ec2Session (DeleteVpc (VpcId (hd VpcList))) (deleteVPC_loop ec2Session VpcList w) of
          (Some err, w') \<Rightarrow>
            if 1 < length VpcList then
              (Returns None,
               logf WarnLevel ''Can't delete VPC %s in %s yet: %s''
                 [S (VpcId (VpcList ! 1)), S (Region ec2Session), S err] w')
            else (Panics ''index out of range [1] with length 1'', w')
        | (None, w') \<Rightarrow> (Returns None, w')))"

definition DeleteExpiredVPC ::
  "provider \<Rightarrow> string \<Rightarrow> bool \<Rightarrow> world \<Rightarrow> error option outcome \<times> world" where
  "DeleteExpiredVPC ec2Session tagName dryRun w =
    (case listTaggedVPC ec2Session tagName w of
       (Inl err, w1) \<Rightarrow> (Returns (Some (ErrCantListVPC err)), w1)
     | (Inr VPCs, w1) \<Rightarrow>
         (case deleteVPC ec2Session VPCs dryRun w1 of
            (Panics msg, w2) \<Rightarrow> (Panics msg, w2)
          | (Returns _, w2) \<Rightarrow> (Returns None, w2)))"

section \<open>Traces\<close>

text \<open>
  Names for the call sequences the properties below speak about: the delete calls of
  one container in the order of the five statements of the loop body of \<open>deleteVPC\<close>,
  the four discovery calls of one \<open>getCompleteVpc\<close>, and the two guards of
  \<open>listTaggedVPC\<close> (the readiness test of a VPC, and the test under which a tag
  reaches the append).
\<close>

definition deletionCalls :: "VpcInfo \<Rightarrow> call list" where
  "deletionCalls vpc =
     map DeleteSecurityGroup (SecurityGroups vpc) @ map DeleteInternetGateway (InternetGateways vpc) @
     map DeleteSubnet (Subnets vpc) @ map DeleteRouteTable (RouteTables vpc) @ [DeleteVpc (VpcId vpc)]"

definition resolveCalls :: "string \<Rightarrow> call list" where
  "resolveCalls vpcId =
    [DescribeSecurityGroups vpcId, DescribeInternetGateways vpcId,
     DescribeSubnets vpcId, DescribeRouteTables vpcId]"

definition ready :: "Vpc \<Rightarrow> bool" where
  "ready vpc = (Vpc_State vpc = ''available'' \<and> Vpc_Tags vpc \<noteq> [])"

definition appended :: "string \<Rightarrow> tag \<Rightarrow> bool" where
  "appended tagName tag = (\<not> (Key tag = tagName \<and> Key tag = []))"

definition entriesOf :: "string \<Rightarrow> Vpc \<Rightarrow> nat" where
  "entriesOf tagName vpc = length (filter (appended tagName) (Vpc_Tags vpc))"

fun isDelete :: "call \<Rightarrow> bool" where
  "isDelete (DeleteLoadBalancer _) = True"
| "isDelete (DeleteSecurityGroup _) = True"
| "isDelete (DeleteInternetGateway _) = True"
| "isDelete (DeleteSubnet _) = True"
| "isDelete (DeleteRouteTable _) = True"
| "isDelete (DeleteVpc _) = True"
| "isDelete _ = False"

fun isDeleteVpc :: "call \<Rightarrow> bool" where
  "isDeleteVpc (DeleteVpc _) = True"
| "isDeleteVpc _ = False"

section \<open>Scenarios\<close>

text \<open>The start of a pass: no call issued, nothing logged.\<close>

definition w0 :: world where
  "w0 = \<lparr>calls = [], logs = []\<rparr>"

text \<open>A provider that has no resources and on which every delete succeeds.\<close>

definition emptyProvider :: provider where
  "emptyProvider =
    \<lparr>Region = ''eu-west-3'',
     describeLoadBalancers = Inr [],
     describeTags = (\<lambda>arn. Inr [[]]),
     describeVpcs = (\<lambda>tagName. Inr []),
     describeSecurityGroups = (\<lambda>vpcId. Inr []),
     describeInternetGateways = (\<lambda>vpcId. Inr []),
     describeSubnets = (\<lambda>vpcId. Inr []),
     describeRouteTables = (\<lambda>vpcId. Inr []),
     deleteError = (\<lambda>history request. None)\<rparr>"

text \<open>
  One VPC \<open>vpc-1\<close> in state \<open>available\<close> with one member in each category; the
  scenarios differ in its tags.
\<close>

definition oneVpc :: "tag list \<Rightarrow> provider" where
  "oneVpc tags =
    emptyProvider
      \<lparr>describeVpcs := (\<lambda>tagName. Inr [\<lparr>Vpc_VpcId = ''vpc-1'', Vpc_State = ''available'', Vpc_Tags = tags\<rparr>]),
       describeSecurityGroups := (\<lambda>vpcId. Inr [''sg-1'']),
       describeInternetGateways := (\<lambda>vpcId. Inr [''igw-1'']),
       describeSubnets := (\<lambda>vpcId. Inr [''subnet-1'']),
       describeRouteTables := (\<lambda>vpcId. Inr [''rtb-1''])\<rparr>"

text \<open>The listing of VPCs is refused by the provider.\<close>

definition unauthorized :: provider where
  "unauthorized = emptyProvider\<lparr>describeVpcs := (\<lambda>tagName. Inl ''UnauthorizedOperation'')\<rparr>"

text \<open>
  Two load balancers created at time 0, each with the tag \<open>ttl = 3600\<close>; the argument
  lists the ARNs whose deletion the provider refuses.
\<close>

definition twoLoadBalancers :: "string list \<Rightarrow> provider" where
  "twoLoadBalancers refused =
    emptyProvider
      \<lparr>describeLoadBalancers :=
         Inr [\<lparr>LoadBalancerArn = ''arn-a'', LoadBalancerName = ''lb-a'', LbCreatedTime = 0, StateCode = ''active''\<rparr>,
              \<lparr>LoadBalancerArn = ''arn-b'', LoadBalancerName = ''lb-b'', LbCreatedTime = 0, StateCode = ''active''\<rparr>],
       describeTags := (\<lambda>arn. Inr [[(''ttl'', ''3600'')]]),
       deleteError := (\<lambda>history request.
         if request \<in> set (map DeleteLoadBalancer refused) then Some ''ResourceInUse'' else None)\<rparr>"

text \<open>
  Three discovered VPCs: one \<open>available\<close> and tagged, one \<open>pending\<close>, one
  \<open>available\<close> without tags.
\<close>

definition threeVpcs :: provider where
  "threeVpcs =
    emptyProvider
      \<lparr>describeVpcs := (\<lambda>tagName. Inr
         [\<lparr>Vpc_VpcId = ''vpc-1'', Vpc_State = ''available'', Vpc_Tags = [(''ttl'', ''3600'')]\<rparr>,
          \<lparr>Vpc_VpcId = ''vpc-2'', Vpc_State = ''pending'', Vpc_Tags = [(''ttl'', ''0'')]\<rparr>,
          \<lparr>Vpc_VpcId = ''vpc-3'', Vpc_State = ''available'', Vpc_Tags = []\<rparr>])\<rparr>"

text \<open>Two complete container records, as \<open>listTaggedVPC\<close> hands them to \<open>deleteVPC\<close>.\<close>

definition vpcInfo1 :: VpcInfo where
  "vpcInfo1 =
    \<lparr>VpcId = ''vpc-1'', SecurityGroups = [''sg-1'', ''sg-2''], InternetGateways = [''igw-1''],
     Subnets = [''subnet-1'', ''subnet-2''], RouteTables = [''rtb-1''],
     VpcStatus = ''available'', VpcTTL = 3600, Tag = ''1''\<rparr>"

definition vpcInfo2 :: VpcInfo where
  "vpcInfo2 =
    \<lparr>VpcId = ''vpc-2'', SecurityGroups = [''sg-3''], InternetGateways = [],
     Subnets = [''subnet-3''], RouteTables = [''rtb-2''],
     VpcStatus = ''available'', VpcTTL = 60, Tag = ''1''\<rparr>"

section \<open>Properties\<close>

subsection \<open>The calls of each operation\<close>

lemma calls_logf: "calls (logf l fmt args w) = calls w"
  by (simp add: logf_def)

lemma calls_issue: "calls (issue c w) = calls w @ [c]"
  by (simp add: issue_def)

lemma calls_delete: "calls (snd (delete p c w)) = calls w @ [c]"
  by (simp add: delete_def calls_issue)

lemma calls_deleteMembers:
  "calls (deleteMembers p request members w) = calls w @ map request members"
proof (induction members arbitrary: w)
  case Nil
  show ?case by simp
next
  case (Cons m ms)
  obtain e w' where d: "delete p (request m) w = (e, w')"
    by (cases "delete p (request m) w")
  then have c: "calls w' = calls w @ [request m]"
    using calls_delete [of p "request m" w] by simp
  show ?case
    by (cases e) (simp_all add: d Cons.IH c calls_logf)
qed

lemma calls_deleteVPC_loop:
  "calls (deleteVPC_loop p VpcList w) = calls w @ concat (map deletionCalls VpcList)"
proof (induction VpcList arbitrary: w)
  case Nil
  show ?case by simp
next
  case (Cons vpc rest)
  define w4 where "w4 = DeleteRouteTablesByIds p (RouteTables vpc)
              (DeleteSubnetsByIds p (Subnets vpc)
                (DeleteInternetGatewaysByIds p (InternetGateways vpc)
                  (DeleteSecurityGroupsByIds p (SecurityGroups vpc) w)))"
  have c4: "calls w4 = calls w @ map DeleteSecurityGroup (SecurityGroups vpc) @ map DeleteInternetGateway (InternetGateways vpc) @
     map DeleteSubnet (Subnets vpc) @ map DeleteRouteTable (RouteTables vpc)"
    by (simp add: w4_def DeleteRouteTablesByIds_def DeleteSubnetsByIds_def
        DeleteInternetGatewaysByIds_def DeleteSecurityGroupsByIds_def calls_deleteMembers)
  obtain e w5 where d: "delete p (DeleteVpc (VpcId vpc)) w4 = (e, w5)"
    by (cases "delete p (DeleteVpc (VpcId vpc)) w4")
  then have c5: "calls w5 = calls w4 @ [DeleteVpc (VpcId vpc)]"
    using calls_delete [of p "DeleteVpc (VpcId vpc)" w4] by simp
  have step: "deleteVPC_loop p (vpc # rest) w =
      (case e of Some err \<Rightarrow> deleteVPC_loop p rest (logf WarnLevel ''Can't delete VPC %s in %s yet: %s''
              [S (VpcId vpc), S (Region p), S err] w5) | None \<Rightarrow> deleteVPC_loop p rest w5)"
    using d by (simp add: w4_def)
  show ?case
    by (cases e) (simp_all add: step Cons.IH calls_logf c5 c4 deletionCalls_def del: deleteVPC_loop.simps)
qed

lemma calls_resolveCategory:
  "calls (snd (resolveCategory query answer w)) = calls w @ [query]"
  by (cases answer) (simp_all add: resolveCategory_def calls_logf calls_issue)

lemma getCompleteVpc_VpcId: "VpcId (fst (getCompleteVpc p vpc w)) = VpcId vpc"
  by (simp add: getCompleteVpc_def SetSecurityGroupsIdsByVpcId_def
      SetInternetGatewaysIdsByVpcId_def SetSubnetsIdsByVpcId_def SetRouteTablesIdsByVpcId_def
      split: prod.splits)

lemma getCompleteVpc_calls:
  "calls (snd (getCompleteVpc p vpc w)) = calls w @ resolveCalls (VpcId vpc)"
proof -
  obtain m1 w1 where r1: "resolveCategory (DescribeSecurityGroups (VpcId vpc))
      (describeSecurityGroups p (VpcId vpc)) w = (m1, w1)"
    by (cases "resolveCategory (DescribeSecurityGroups (VpcId vpc)) (describeSecurityGroups p (VpcId vpc)) w")
  obtain m2 w2 where r2: "resolveCategory (DescribeInternetGateways (VpcId vpc))
      (describeInternetGateways p (VpcId vpc)) w1 = (m2, w2)"
    by (cases "resolveCategory (DescribeInternetGateways (VpcId vpc)) (describeInternetGateways p (VpcId vpc)) w1")
  obtain m3 w3 where r3: "resolveCategory (DescribeSubnets (VpcId vpc))
      (describeSubnets p (VpcId vpc)) w2 = (m3, w3)"
    by (cases "resolveCategory (DescribeSubnets (VpcId vpc)) (describeSubnets p (VpcId vpc)) w2")
  obtain m4 w4 where r4: "resolveCategory (DescribeRouteTables (VpcId vpc))
      (describeRouteTables p (VpcId vpc)) w3 = (m4, w4)"
    by (cases "resolveCategory (DescribeRouteTables (VpcId vpc)) (describeRouteTables p (VpcId vpc)) w3")
  have c1: "calls w1 = calls w @ [DescribeSecurityGroups (VpcId vpc)]"
    using calls_resolveCategory [of "DescribeSecurityGroups (VpcId vpc)" "describeSecurityGroups p (VpcId vpc)" w] r1 by simp
  have c2: "calls w2 = calls w1 @ [DescribeInternetGateways (VpcId vpc)]"
    using calls_resolveCategory [of "DescribeInternetGateways (VpcId vpc)" "describeInternetGateways p (VpcId vpc)" w1] r2 by simp
  have c3: "calls w3 = calls w2 @ [DescribeSubnets (VpcId vpc)]"
    using calls_resolveCategory [of "DescribeSubnets (VpcId vpc)" "describeSubnets p (VpcId vpc)" w2] r3 by simp
  have c4: "calls w4 = calls w3 @ [DescribeRouteTables (VpcId vpc)]"
    using calls_resolveCategory [of "DescribeRouteTables (VpcId vpc)" "describeRouteTables p (VpcId vpc)" w3] r4 by simp
  have "snd (getCompleteVpc p vpc w) = w4"
    by (simp add: getCompleteVpc_def SetSecurityGroupsIdsByVpcId_def
      SetInternetGatewaysIdsByVpcId_def SetSubnetsIdsByVpcId_def SetRouteTablesIdsByVpcId_def r1 r2 r3 r4)
  then show ?thesis
    by (simp add: c1 c2 c3 c4 resolveCalls_def)
qed

lemma listTaggedVPC_ttl_VpcId: "VpcId (fst (listTaggedVPC_ttl p vpcId tag taggedVpc w)) = VpcId taggedVpc"
  by (simp add: listTaggedVPC_ttl_def split: sum.splits)

lemma listTaggedVPC_ttl_calls: "calls (snd (listTaggedVPC_ttl p vpcId tag taggedVpc w)) = calls w"
  by (simp add: listTaggedVPC_ttl_def calls_logf split: sum.splits)

lemma listTaggedVPC_tags_result:
  "map VpcId (fst (listTaggedVPC_tags p tagName vpcId tags taggedVpc taggedVPCs w)) =
     map VpcId taggedVPCs @ replicate (length (filter (appended tagName) tags)) (VpcId taggedVpc) \<and>
   calls (snd (listTaggedVPC_tags p tagName vpcId tags taggedVpc taggedVPCs w)) =
     calls w @ concat (replicate (length (filter (appended tagName) tags)) (resolveCalls (VpcId taggedVpc)))"
proof (induction tags arbitrary: taggedVpc taggedVPCs w)
  case Nil
  show ?case by simp
next
  case (Cons tag tags)
  obtain tv1 w1 where t: "listTaggedVPC_ttl p vpcId tag taggedVpc w = (tv1, w1)"
    by (cases "listTaggedVPC_ttl p vpcId tag taggedVpc w")
  have id1: "VpcId tv1 = VpcId taggedVpc"
    using listTaggedVPC_ttl_VpcId [of p vpcId tag taggedVpc w] t by simp
  have c1: "calls w1 = calls w"
    using listTaggedVPC_ttl_calls [of p vpcId tag taggedVpc w] t by simp
  show ?case
  proof (cases "appended tagName tag")
    case False
    then have k: "Key tag = tagName" "Key tag = []"
      by (simp_all add: appended_def)
    have step: "listTaggedVPC_tags p tagName vpcId (tag # tags) taggedVpc taggedVPCs w =
        listTaggedVPC_tags p tagName vpcId tags tv1 taggedVPCs
          (logf WarnLevel ''Tag %s was empty and it wasn't expected, skipping'' [S (Key tag)] w1)"
      using k by (simp add: t)
    show ?thesis
      using False by (simp add: step Cons.IH id1 c1 calls_logf del: listTaggedVPC_tags.simps)
  next
    case True
    define tv where "tv = (if Key tag = tagName then tv1\<lparr>Tag := Value tag\<rparr> else tv1)"
    obtain tv2 w2 where g: "getCompleteVpc p tv w1 = (tv2, w2)"
      by (cases "getCompleteVpc p tv w1")
    have idtv: "VpcId tv = VpcId taggedVpc"
      by (simp add: tv_def id1)
    have id2: "VpcId tv2 = VpcId taggedVpc"
      using getCompleteVpc_VpcId [of p tv w1] g idtv by simp
    have c2: "calls w2 = calls w @ resolveCalls (VpcId taggedVpc)"
      using getCompleteVpc_calls [of p tv w1] g idtv c1 by simp
    have step: "listTaggedVPC_tags p tagName vpcId (tag # tags) taggedVpc taggedVPCs w =
        listTaggedVPC_tags p tagName vpcId tags tv2 (taggedVPCs @ [tv2]) w2"
      using True g by (auto simp add: t tv_def appended_def)
    show ?thesis
      using True by (simp add: step Cons.IH id2 c2 replicate_app_Cons_same del: listTaggedVPC_tags.simps)
  qed
qed

lemma listTaggedVPC_loop_result:
  "map VpcId (fst (listTaggedVPC_loop p tagName VPCs taggedVPCs w)) =
     map VpcId taggedVPCs @
     concat (map (\<lambda>vpc. replicate (entriesOf tagName vpc) (Vpc_VpcId vpc)) (filter ready VPCs)) \<and>
   calls (snd (listTaggedVPC_loop p tagName VPCs taggedVPCs w)) =
     calls w @
     concat (map (\<lambda>vpc. concat (replicate (entriesOf tagName vpc) (resolveCalls (Vpc_VpcId vpc))))
       (filter ready VPCs))"
proof (induction VPCs arbitrary: taggedVPCs w)
  case Nil
  show ?case by simp
next
  case (Cons vpc rest)
  show ?case
  proof (cases "ready vpc")
    case False
    then show ?thesis
      using Cons.IH by (auto simp add: ready_def)
  next
    case True
    obtain t' w' where l: "listTaggedVPC_tags p tagName (Vpc_VpcId vpc) (Vpc_Tags vpc) (newVpcInfo vpc) taggedVPCs w = (t', w')"
      by (cases "listTaggedVPC_tags p tagName (Vpc_VpcId vpc) (Vpc_Tags vpc) (newVpcInfo vpc) taggedVPCs w")
    have r: "map VpcId t' = map VpcId taggedVPCs @ replicate (entriesOf tagName vpc) (Vpc_VpcId vpc)"
      "calls w' = calls w @ concat (replicate (entriesOf tagName vpc) (resolveCalls (Vpc_VpcId vpc)))"
      using listTaggedVPC_tags_result [of p tagName "Vpc_VpcId vpc" "Vpc_Tags vpc" "newVpcInfo vpc" taggedVPCs w] l
      by (simp_all add: entriesOf_def newVpcInfo_def)
    have step: "listTaggedVPC_loop p tagName (vpc # rest) taggedVPCs w = listTaggedVPC_loop p tagName rest t' w'"
      using True l by (simp add: ready_def)
    show ?thesis
      using True by (simp add: step Cons.IH r del: listTaggedVPC_loop.simps)
  qed
qed

lemma listTaggedVPC_loop_ready:
  "listTaggedVPC_loop p tagName VPCs taggedVPCs w =
   listTaggedVPC_loop p tagName (filter ready VPCs) taggedVPCs w"
proof (induction VPCs arbitrary: taggedVPCs w)
  case Nil
  show ?case by simp
next
  case (Cons vpc rest)
  show ?case
  proof (cases "ready vpc")
    case False
    then show ?thesis
      using Cons.IH by (auto simp add: ready_def)
  next
    case True
    then show ?thesis
      using Cons.IH by (simp add: ready_def split: prod.splits)
  qed
qed

lemma getVPCs_calls: "calls (snd (getVPCs p tagName w)) = calls w @ [DescribeVpcs tagName]"
  by (simp add: getVPCs_def Let_def calls_logf calls_issue split: sum.splits)

lemma getVPCs_listed: "describeVpcs p tagName = Inr VPCs \<Longrightarrow> fst (getVPCs p tagName w) = VPCs"
  by (simp add: getVPCs_def Let_def)

lemma listTaggedVPC_unfold:
  "listTaggedVPC p tagName w =
    (Inr (fst (listTaggedVPC_loop p tagName (fst (getVPCs p tagName w)) [] (snd (getVPCs p tagName w)))),
     logf DebugLevel ''Found %d VPC cluster(s) in ready status with ttl tag''
       [N (length (fst (listTaggedVPC_loop p tagName (fst (getVPCs p tagName w)) []
            (snd (getVPCs p tagName w)))))]
       (snd (listTaggedVPC_loop p tagName (fst (getVPCs p tagName w)) [] (snd (getVPCs p tagName w)))))"
  by (simp add: listTaggedVPC_def split: prod.splits)

lemma concat_map_replicate:
  "concat (map f (concat (map (\<lambda>v. replicate (n v) (g v)) xs))) =
   concat (map (\<lambda>v. concat (replicate (n v) (f (g v)))) xs)"
  by (induction xs) (simp_all add: map_replicate)

lemma deleteVpc_calls_of_loop:
  "filter isDeleteVpc (concat (map deletionCalls VpcList)) = map (\<lambda>vpc. DeleteVpc (VpcId vpc)) VpcList"
proof (induction VpcList)
  case Nil
  show ?case by simp
next
  case (Cons vpc rest)
  have "filter isDeleteVpc (deletionCalls vpc) = [DeleteVpc (VpcId vpc)]"
    by (simp add: deletionCalls_def filter_map comp_def)
  then show ?case
    using Cons.IH by simp
qed

lemma no_delete_in_resolveCalls: "filter isDelete (concat (map resolveCalls ids)) = []"
  by (induction ids) (simp_all add: resolveCalls_def)

lemma listTaggedLoadBalancers_tags_calls:
  "calls (snd (listTaggedLoadBalancers_tags p tagName tags currentLb taggedLoadBalancers w)) = calls w"
  by (induction tags arbitrary: currentLb taggedLoadBalancers w)
     (simp_all add: calls_logf split: sum.splits)

lemma listTaggedLoadBalancers_loop_calls:
  "filter isDelete (calls (snd (listTaggedLoadBalancers_loop p tagName lbs taggedLoadBalancers w))) =
   filter isDelete (calls w)"
proof (induction lbs arbitrary: taggedLoadBalancers w)
  case Nil
  show ?case by simp
next
  case (Cons currentLb rest)
  show ?case
  proof (cases "describeTags p (Arn currentLb)")
    case (Inl err)
    then show ?thesis
      by (simp add: Cons.IH calls_logf calls_issue)
  next
    case (Inr TagDescriptions)
    show ?thesis
    proof (cases TagDescriptions)
      case Nil
      then show ?thesis
        using Inr by (simp add: calls_issue)
    next
      case (Cons Tags others)
      obtain t' w' where l: "listTaggedLoadBalancers_tags p tagName Tags currentLb taggedLoadBalancers
          (issue (DescribeTags (Arn currentLb)) w) = (t', w')"
        by (cases "listTaggedLoadBalancers_tags p tagName Tags currentLb taggedLoadBalancers
          (issue (DescribeTags (Arn currentLb)) w)")
      have c: "calls w' = calls w @ [DescribeTags (Arn currentLb)]"
        using listTaggedLoadBalancers_tags_calls [of p tagName Tags currentLb taggedLoadBalancers
            "issue (DescribeTags (Arn currentLb)) w"] l
        by (simp add: calls_issue)
      show ?thesis
        using Inr Cons l by (simp add: Cons.IH c)
    qed
  qed
qed

lemma ListLoadBalancers_calls:
  "calls (snd (ListLoadBalancers p w)) = calls w @ [DescribeLoadBalancers]"
  by (simp add: ListLoadBalancers_def Let_def calls_logf calls_issue split: sum.splits)

lemma listTaggedLoadBalancers_calls:
  "filter isDelete (calls (snd (listTaggedLoadBalancers p tagName w))) = filter isDelete (calls w)"
proof -
  obtain r w1 where l: "ListLoadBalancers p w = (r, w1)"
    by (cases "ListLoadBalancers p w")
  have c1: "calls w1 = calls w @ [DescribeLoadBalancers]"
    using ListLoadBalancers_calls [of p w] l by simp
  show ?thesis
  proof (cases r)
    case (Inl err)
    then show ?thesis
      using l by (simp add: listTaggedLoadBalancers_def c1)
  next
    case (Inr allLoadBalancers)
    obtain o2 w2 where l2: "listTaggedLoadBalancers_loop p tagName allLoadBalancers [] w1 = (o2, w2)"
      by (cases "listTaggedLoadBalancers_loop p tagName allLoadBalancers [] w1")
    have c2: "filter isDelete (calls w2) = filter isDelete (calls w1)"
      using listTaggedLoadBalancers_loop_calls [of p tagName allLoadBalancers "[]" w1] l2 by simp
    show ?thesis
      using l Inr l2 c2 by (cases o2) (simp_all add: listTaggedLoadBalancers_def c1)
  qed
qed

text \<open>Dry-run: neither family issues a delete call.\<close>

lemma DeleteExpiredLoadBalancers_loop_dryRun:
  "calls (DeleteExpiredLoadBalancers_loop p lbs True now todo w) = calls w"
  by (induction todo arbitrary: w) (simp_all add: deleteLoadBalancers_def calls_logf)

lemma DeleteExpiredLoadBalancers_dryRun:
  "filter isDelete (calls (snd (DeleteExpiredLoadBalancers p tagName True now w))) =
   filter isDelete (calls w)"
proof -
  obtain r w1 where l: "listTaggedLoadBalancers p tagName w = (r, w1)"
    by (cases "listTaggedLoadBalancers p tagName w")
  have c1: "filter isDelete (calls w1) = filter isDelete (calls w)"
    using listTaggedLoadBalancers_calls [of p tagName w] l by simp
  show ?thesis
  proof (cases r)
    case (Panics msg)
    then show ?thesis
      using l c1 by (simp add: DeleteExpiredLoadBalancers_def)
  next
    case (Returns res)
    then show ?thesis
      using l c1
      by (cases res) (simp_all add: DeleteExpiredLoadBalancers_def DeleteExpiredLoadBalancers_loop_dryRun)
  qed
qed

lemma listTaggedVPC_calls:
  "filter isDelete (calls (snd (listTaggedVPC p tagName w))) = filter isDelete (calls w)"
proof -
  have "calls (snd (listTaggedVPC p tagName w)) =
      calls w @ DescribeVpcs tagName #
      concat (map (\<lambda>vpc. concat (replicate (entriesOf tagName vpc) (resolveCalls (Vpc_VpcId vpc))))
        (filter ready (fst (getVPCs p tagName w))))"
    using listTaggedVPC_loop_result [of p tagName "fst (getVPCs p tagName w)" "[]" "snd (getVPCs p tagName w)"]
    by (simp add: listTaggedVPC_unfold calls_logf getVPCs_calls)
  also have "\<dots> = calls w @ DescribeVpcs tagName #
      concat (map resolveCalls (concat (map (\<lambda>vpc. replicate (entriesOf tagName vpc) (Vpc_VpcId vpc))
        (filter ready (fst (getVPCs p tagName w))))))"
    by (simp add: concat_map_replicate)
  finally show ?thesis
    by (simp add: no_delete_in_resolveCalls)
qed

lemma DeleteExpiredVPC_dryRun:
  "filter isDelete (calls (snd (DeleteExpiredVPC p tagName True w))) = filter isDelete (calls w)"
  using listTaggedVPC_calls [of p tagName w]
  by (simp add: DeleteExpiredVPC_def deleteVPC_def listTaggedVPC_unfold)

text \<open>Every record built by \<open>ListLoadBalancers\<close> carries the TTL sentinel.\<close>

lemma ListLoadBalancers_sentinel:
  "fst (ListLoadBalancers p w) = Inr lbs \<Longrightarrow> lb \<in> set lbs \<Longrightarrow> TTL lb = - 1"
  by (auto simp add: ListLoadBalancers_def Let_def split: sum.splits if_splits)

text \<open>A failed listing of load balancers reaches the caller, and nothing else is done.\<close>

lemma DeleteExpiredLoadBalancers_listing_failure:
  "describeLoadBalancers p = Inl err \<Longrightarrow>
   fst (DeleteExpiredLoadBalancers p tagName dryRun now w) =
     Returns (Some (ErrCantListLoadBalancers (ErrLoadBalancerList (Region p)))) \<and>
   calls (snd (DeleteExpiredLoadBalancers p tagName dryRun now w)) = calls w @ [DescribeLoadBalancers]"
  by (simp add: DeleteExpiredLoadBalancers_def listTaggedLoadBalancers_def ListLoadBalancers_def
      Let_def calls_logf calls_issue)

subsection \<open>The claims\<close>

text \<open>
  C1. Deletion should be attempted only for containers whose TTL has elapsed. The code
  does not do so: \<open>DeleteExpiredVPC\<close> reads no clock and never calls the expiration
  evaluator; a VPC whose decoded TTL is 3600 seconds is deleted in live mode by
  whichever pass discovers it.
\<close>

theorem DeleteExpiredVPC_deletes_without_evaluation:
  "fst (listTaggedVPC (oneVpc [(''ttl'', ''3600'')]) ''ttl'' w0) = Inr
     [\<lparr>VpcId = ''vpc-1'', SecurityGroups = [''sg-1''], InternetGateways = [''igw-1''],
       Subnets = [''subnet-1''], RouteTables = [''rtb-1''],
       VpcStatus = ''available'', VpcTTL = 3600, Tag = ''3600''\<rparr>] \<and>
   filter isDelete (calls (snd (DeleteExpiredVPC (oneVpc [(''ttl'', ''3600'')]) ''ttl'' False w0))) =
     [DeleteSecurityGroup ''sg-1'', DeleteInternetGateway ''igw-1'', DeleteSubnet ''subnet-1'',
      DeleteRouteTable ''rtb-1'', DeleteVpc ''vpc-1'', DeleteVpc ''vpc-1'']"
  by code_simp

text \<open>
  C2. Live mode should issue exactly one delete call per resource. The code issues
  more: \<open>deleteVPC\<close> deletes the first container of the list a second time after its
  loop, and \<open>DeleteExpiredLoadBalancers\<close> hands the whole list to
  \<open>deleteLoadBalancers\<close> once per expired load balancer, so that two expired load
  balancers are deleted twice each.
\<close>

theorem live_mode_repeats_delete_calls:
  "calls (snd (deleteVPC emptyProvider [vpcInfo2] False w0)) =
     [DeleteSecurityGroup ''sg-3'', DeleteSubnet ''subnet-3'', DeleteRouteTable ''rtb-2'',
      DeleteVpc ''vpc-2'', DeleteVpc ''vpc-2''] \<and>
   calls (snd (DeleteExpiredLoadBalancers (twoLoadBalancers []) ''3600'' False 10000 w0)) =
     [DescribeLoadBalancers, DescribeTags ''arn-a'', DescribeTags ''arn-b'',
      DeleteLoadBalancer ''arn-a'', DeleteLoadBalancer ''arn-b'',
      DeleteLoadBalancer ''arn-a'', DeleteLoadBalancer ''arn-b'']"
  by code_simp

text \<open>
  C3. A failed listing should reach the caller of the pass as an error. For VPCs it
  does not: \<open>getVPCs\<close> logs the provider's error and returns no VPC, and
  \<open>DeleteExpiredVPC\<close> returns \<open>nil\<close> after reporting that it found 0 VPCs.
\<close>

theorem DeleteExpiredVPC_hides_listing_failure:
  "describeVpcs unauthorized ''ttl'' = Inl ''UnauthorizedOperation'' \<and>
   DeleteExpiredVPC unauthorized ''ttl'' False w0 =
     (Returns None,
      \<lparr>calls = [DescribeVpcs ''ttl''],
       logs = [(DebugLevel, ''Listing all VPCs'', []),
               (ErrorLevel, ''%s'', [S ''UnauthorizedOperation'']),
               (DebugLevel, ''Found %d VPC cluster(s) in ready status with ttl tag'', [N 0])]\<rparr>)"
  by code_simp

text \<open>
  C4. In live mode, for every container handed to \<open>deleteVPC\<close> the delete calls are
  issued in the fixed dependency order: all its security groups, then all its internet
  gateways, then all its subnets, then all its route tables, then the container
  itself; the containers are handled one after the other, and the call that follows
  the loop is a delete of the first container again.
\<close>

theorem deleteVPC_order:
  "\<not> dryRun \<Longrightarrow> VpcList \<noteq> [] \<Longrightarrow>
   calls (snd (deleteVPC p VpcList dryRun w)) =
     calls w @
     concat (map (\<lambda>vpc.
        map DeleteSecurityGroup (SecurityGroups vpc) @
        map DeleteInternetGateway (InternetGateways vpc) @
        map DeleteSubnet (Subnets vpc) @
        map DeleteRouteTable (RouteTables vpc) @
        [DeleteVpc (VpcId vpc)]) VpcList) @
     [DeleteVpc (VpcId (hd VpcList))]"
proof -
  assume live: "\<not> dryRun" and ne: "VpcList \<noteq> []"
  define w1 where "w1 = deleteVPC_loop p VpcList w"
  obtain e w2 where d: "delete p (DeleteVpc (VpcId (hd VpcList))) w1 = (e, w2)"
    by (cases "delete p (DeleteVpc (VpcId (hd VpcList))) w1")
  then have c2: "calls w2 = calls w1 @ [DeleteVpc (VpcId (hd VpcList))]"
    using calls_delete [of p "DeleteVpc (VpcId (hd VpcList))" w1] by simp
  have c1: "calls w1 = calls w @ concat (map deletionCalls VpcList)"
    by (simp add: w1_def calls_deleteVPC_loop)
  have "calls (snd (deleteVPC p VpcList dryRun w)) = calls w2"
    using live ne d by (cases e) (simp_all add: deleteVPC_def w1_def [symmetric] calls_logf)
  then show ?thesis
    using c1 c2 by (simp add: deletionCalls_def [abs_def])
qed

theorem deleteVPC_order_witness:
  "\<not> False \<and> [vpcInfo1, vpcInfo2] \<noteq> [] \<and>
   calls (snd (deleteVPC emptyProvider [vpcInfo1, vpcInfo2] False w0)) =
     [DeleteSecurityGroup ''sg-1'', DeleteSecurityGroup ''sg-2'', DeleteInternetGateway ''igw-1'',
      DeleteSubnet ''subnet-1'', DeleteSubnet ''subnet-2'', DeleteRouteTable ''rtb-1'',
      DeleteVpc ''vpc-1'',
      DeleteSecurityGroup ''sg-3'', DeleteSubnet ''subnet-3'', DeleteRouteTable ''rtb-2'',
      DeleteVpc ''vpc-2'',
      DeleteVpc ''vpc-1'']"
  using deleteVPC_order [of False "[vpcInfo1, vpcInfo2]" emptyProvider w0]
  by (simp add: vpcInfo1_def vpcInfo2_def w0_def)

text \<open>
  C5. A resource whose TTL tag does not parse should be logged and left out of the
  pass. \<open>listTaggedVPC\<close> logs the failure (at error level) but goes on to the append:
  the VPC is returned with TTL 0 and, in live mode, deleted.
\<close>

theorem listTaggedVPC_keeps_unparsable_ttl:
  "Atoi ''abc'' = Inl (ErrSyntax ''abc'') \<and>
   fst (listTaggedVPC (oneVpc [(''ttl'', ''abc'')]) ''ttl'' w0) = Inr
     [\<lparr>VpcId = ''vpc-1'', SecurityGroups = [''sg-1''], InternetGateways = [''igw-1''],
       Subnets = [''subnet-1''], RouteTables = [''rtb-1''],
       VpcStatus = ''available'', VpcTTL = 0, Tag = ''abc''\<rparr>] \<and>
   DeleteExpiredVPC (oneVpc [(''ttl'', ''abc'')]) ''ttl'' False w0 =
     (Returns None,
      \<lparr>calls = [DescribeVpcs ''ttl'', DescribeSecurityGroups ''vpc-1'',
                DescribeInternetGateways ''vpc-1'', DescribeSubnets ''vpc-1'',
                DescribeRouteTables ''vpc-1'', DeleteSecurityGroup ''sg-1'',
                DeleteInternetGateway ''igw-1'', DeleteSubnet ''subnet-1'',
                DeleteRouteTable ''rtb-1'', DeleteVpc ''vpc-1'', DeleteVpc ''vpc-1''],
       logs = [(DebugLevel, ''Listing all VPCs'', []),
               (ErrorLevel, ''Error while trying to convert tag value (%s) to integer on VPC %s in %v'',
                [S ''abc'', S ''vpc-1'', S ''eu-west-3'']),
               (DebugLevel, ''Found %d VPC cluster(s) in ready status with ttl tag'', [N 1])]\<rparr>)"
  by code_simp

text \<open>
  C6. A failed delete of one load balancer should not keep the pass from attempting
  the others. In the code it does: with two expired load balancers of which the first
  cannot be deleted, \<open>deleteLoadBalancers\<close> returns at the failure, the next
  iteration starts again from the first, and the second is never attempted.
\<close>

theorem DeleteExpiredLoadBalancers_stops_at_failed_delete:
  "fst (listTaggedLoadBalancers (twoLoadBalancers [''arn-a'']) ''3600'' w0) = Returns (Inr
     [\<lparr>Arn = ''arn-a'', Name = ''lb-a'', CreatedTime = 0, Status = ''active'', TTL = 3600\<rparr>,
      \<lparr>Arn = ''arn-b'', Name = ''lb-b'', CreatedTime = 0, Status = ''active'', TTL = 3600\<rparr>]) \<and>
   CheckIfExpired 0 3600 10000 \<and>
   DeleteExpiredLoadBalancers (twoLoadBalancers [''arn-a'']) ''3600'' False 10000 w0 =
     (Returns None,
      \<lparr>calls = [DescribeLoadBalancers, DescribeTags ''arn-a'', DescribeTags ''arn-b'',
                DeleteLoadBalancer ''arn-a'', DeleteLoadBalancer ''arn-a''],
       logs = [(DebugLevel, ''Listing all Loadbalancers in region %s'', [S ''eu-west-3'']),
               (ErrorLevel, ''Deletion ELB %s (%s) error: %s'',
                [S ''lb-a'', S ''eu-west-3'', E (ProviderError ''ResourceInUse'')]),
               (ErrorLevel, ''Deletion ELB %s (%s) error: %s'',
                [S ''lb-b'', S ''eu-west-3'', E (ProviderError ''ResourceInUse'')])]\<rparr>)"
  by code_simp

text \<open>
  C7. A discovered container is processed further (tag decoding, sub-resource
  resolution, inclusion in the result) only if its status is exactly \<open>available\<close> and
  it carries at least one tag: the loop of \<open>listTaggedVPC\<close> does on the discovered
  list exactly what it does on the list without the containers failing either
  condition (same records, same calls, same log), and every record \<open>listTaggedVPC\<close>
  returns has the identity of a discovered container that is \<open>available\<close> and tagged.
\<close>

theorem listTaggedVPC_readiness:
  assumes "describeVpcs ec2Session tagName = Inr VPCs"
  shows "listTaggedVPC_loop ec2Session tagName VPCs taggedVPCs w' =
           listTaggedVPC_loop ec2Session tagName
             (filter (\<lambda>vpc. Vpc_State vpc = ''available'' \<and> Vpc_Tags vpc \<noteq> []) VPCs) taggedVPCs w' \<and>
         (\<exists>result. fst (listTaggedVPC ec2Session tagName w) = Inr result \<and>
            (\<forall>info \<in> set result. \<exists>vpc \<in> set VPCs.
               Vpc_VpcId vpc = VpcId info \<and> Vpc_State vpc = ''available'' \<and> Vpc_Tags vpc \<noteq> []))"
proof
  show "listTaggedVPC_loop ec2Session tagName VPCs taggedVPCs w' =
           listTaggedVPC_loop ec2Session tagName
             (filter (\<lambda>vpc. Vpc_State vpc = ''available'' \<and> Vpc_Tags vpc \<noteq> []) VPCs) taggedVPCs w'"
    using listTaggedVPC_loop_ready [of ec2Session tagName VPCs taggedVPCs w']
    by (simp add: ready_def [abs_def])
next
  define w1 where "w1 = snd (getVPCs ec2Session tagName w)"
  define result where "result = fst (listTaggedVPC_loop ec2Session tagName VPCs [] w1)"
  have r: "fst (listTaggedVPC ec2Session tagName w) = Inr result"
    using getVPCs_listed [OF assms, of w]
    by (simp add: listTaggedVPC_unfold result_def w1_def)
  have ids: "map VpcId result =
      concat (map (\<lambda>vpc. replicate (entriesOf tagName vpc) (Vpc_VpcId vpc)) (filter ready VPCs))"
    using listTaggedVPC_loop_result [of ec2Session tagName VPCs "[]" w1]
    by (simp add: result_def)
  have "\<exists>vpc \<in> set VPCs. Vpc_VpcId vpc = VpcId info \<and> Vpc_State vpc = ''available'' \<and> Vpc_Tags vpc \<noteq> []"
    if "info \<in> set result" for info
  proof -
    from that have "VpcId info \<in> set (map VpcId result)"
      by simp
    then obtain vpc where "vpc \<in> set VPCs" "ready vpc" "VpcId info = Vpc_VpcId vpc"
      unfolding ids by auto
    then show ?thesis
      by (auto simp add: ready_def)
  qed
  with r show "\<exists>result. fst (listTaggedVPC ec2Session tagName w) = Inr result \<and>
            (\<forall>info \<in> set result. \<exists>vpc \<in> set VPCs.
               Vpc_VpcId vpc = VpcId info \<and> Vpc_State vpc = ''available'' \<and> Vpc_Tags vpc \<noteq> [])"
    by blast
qed

theorem listTaggedVPC_readiness_witness:
  "describeVpcs threeVpcs ''ttl'' = Inr
     [\<lparr>Vpc_VpcId = ''vpc-1'', Vpc_State = ''available'', Vpc_Tags = [(''ttl'', ''3600'')]\<rparr>,
      \<lparr>Vpc_VpcId = ''vpc-2'', Vpc_State = ''pending'', Vpc_Tags = [(''ttl'', ''0'')]\<rparr>,
      \<lparr>Vpc_VpcId = ''vpc-3'', Vpc_State = ''available'', Vpc_Tags = []\<rparr>] \<and>
   (\<exists>result. fst (listTaggedVPC threeVpcs ''ttl'' w0) = Inr result \<and>
      (\<forall>info \<in> set result. VpcId info = ''vpc-1''))"
proof -
  have h: "describeVpcs threeVpcs ''ttl'' = Inr
     [\<lparr>Vpc_VpcId = ''vpc-1'', Vpc_State = ''available'', Vpc_Tags = [(''ttl'', ''3600'')]\<rparr>,
      \<lparr>Vpc_VpcId = ''vpc-2'', Vpc_State = ''pending'', Vpc_Tags = [(''ttl'', ''0'')]\<rparr>,
      \<lparr>Vpc_VpcId = ''vpc-3'', Vpc_State = ''available'', Vpc_Tags = []\<rparr>]"
    by (simp add: threeVpcs_def emptyProvider_def)
  show ?thesis
    using h listTaggedVPC_readiness [OF h, of "[]" w0 w0, THEN conjunct2] by auto
qed

text \<open>
  C8. The expiration evaluator depends on \<open>createdAt\<close>, \<open>ttlSeconds\<close> and \<open>now\<close>
  only; it is false for every negative TTL, and for a TTL of at least 0 it is true
  exactly when \<open>now \<ge> createdAt + ttlSeconds\<close>: false one second before the
  boundary, true at the boundary.
\<close>

theorem CheckIfExpired_contract:
  "(ttlSeconds < 0 \<longrightarrow> \<not> CheckIfExpired createdAt ttlSeconds now) \<and>
   (0 \<le> ttlSeconds \<longrightarrow>
      (CheckIfExpired createdAt ttlSeconds now \<longleftrightarrow> createdAt + ttlSeconds \<le> now) \<and>
      \<not> CheckIfExpired createdAt ttlSeconds (createdAt + ttlSeconds - 1) \<and>
      CheckIfExpired createdAt ttlSeconds (createdAt + ttlSeconds))"
  by (simp add: CheckIfExpired_def)

theorem CheckIfExpired_contract_witness:
  "\<not> CheckIfExpired 100 (- 1) 1000000 \<and>
   (0::int) \<le> 3600 \<and>
   \<not> CheckIfExpired 100 3600 3699 \<and> CheckIfExpired 100 3600 3700 \<and> CheckIfExpired 100 3600 3701"
  using CheckIfExpired_contract [of "- 1" 100 1000000]
    CheckIfExpired_contract [of 3600 100 3701]
  by simp

text \<open>
  C9. A record for which no TTL was decoded should hold the sentinel -1. A
  \<open>VpcInfo\<close> does not: its literal leaves \<open>TTL\<close> at Go's zero value, so a VPC
  without a \<open>ttl\<close> tag is returned with TTL 0, which the evaluator takes as expired
  from the moment of creation.
\<close>

theorem VpcInfo_without_ttl_tag_has_ttl_zero:
  "fst (listTaggedVPC (oneVpc [(''Name'', ''x'')]) ''Name'' w0) = Inr
     [\<lparr>VpcId = ''vpc-1'', SecurityGroups = [''sg-1''], InternetGateways = [''igw-1''],
       Subnets = [''subnet-1''], RouteTables = [''rtb-1''],
       VpcStatus = ''available'', VpcTTL = 0, Tag = ''x''\<rparr>] \<and>
   CheckIfExpired 100 0 100"
  by code_simp

text \<open>
  C10 (amended). In \<open>listTaggedVPC\<close>, sub-resource resolution and the append of the
  container are executed once per tag of the VPC, except for a tag whose key is empty
  and equal to \<open>tagName\<close>, which is skipped: for every VPC passing the readiness
  filter the returned list holds one entry with that VPC's identity per remaining tag
  (N entries for N tags whenever \<open>tagName\<close> is not empty), one \<open>getCompleteVpc\<close> is
  run per entry, and the loop of \<open>deleteVPC\<close> issues one \<open>DeleteVpc\<close> per entry.
\<close>

theorem listTaggedVPC_entries_per_tag:
  assumes "describeVpcs ec2Session tagName = Inr VPCs"
  shows "\<exists>result. fst (listTaggedVPC ec2Session tagName w) = Inr result \<and>
     map VpcId result =
       concat (map (\<lambda>vpc.
           replicate (length (filter (\<lambda>tag. \<not> (Key tag = tagName \<and> Key tag = [])) (Vpc_Tags vpc)))
             (Vpc_VpcId vpc))
         (filter (\<lambda>vpc. Vpc_State vpc = ''available'' \<and> Vpc_Tags vpc \<noteq> []) VPCs)) \<and>
     (tagName \<noteq> [] \<longrightarrow>
        map VpcId result =
          concat (map (\<lambda>vpc. replicate (length (Vpc_Tags vpc)) (Vpc_VpcId vpc))
            (filter (\<lambda>vpc. Vpc_State vpc = ''available'' \<and> Vpc_Tags vpc \<noteq> []) VPCs))) \<and>
     calls (snd (listTaggedVPC ec2Session tagName w)) =
       calls w @ DescribeVpcs tagName #
       concat (map (\<lambda>vpcId.
           [DescribeSecurityGroups vpcId, DescribeInternetGateways vpcId,
            DescribeSubnets vpcId, DescribeRouteTables vpcId])
         (map VpcId result)) \<and>
     filter isDeleteVpc (calls (deleteVPC_loop ec2Session result w')) =
       filter isDeleteVpc (calls w') @ map DeleteVpc (map VpcId result)"
proof -
  define w1 where "w1 = snd (getVPCs ec2Session tagName w)"
  define result where "result = fst (listTaggedVPC_loop ec2Session tagName VPCs [] w1)"
  have listed: "fst (getVPCs ec2Session tagName w) = VPCs"
    using getVPCs_listed [OF assms] .
  have r: "fst (listTaggedVPC ec2Session tagName w) = Inr result"
    by (simp add: listTaggedVPC_unfold result_def w1_def listed)
  have loop:
    "map VpcId result =
       concat (map (\<lambda>vpc. replicate (entriesOf tagName vpc) (Vpc_VpcId vpc)) (filter ready VPCs))"
    "calls (snd (listTaggedVPC_loop ec2Session tagName VPCs [] w1)) =
       calls w1 @
       concat (map (\<lambda>vpc. concat (replicate (entriesOf tagName vpc) (resolveCalls (Vpc_VpcId vpc))))
         (filter ready VPCs))"
    using listTaggedVPC_loop_result [of ec2Session tagName VPCs "[]" w1]
    by (simp_all add: result_def)
  have ids: "map VpcId result =
       concat (map (\<lambda>vpc.
           replicate (length (filter (\<lambda>tag. \<not> (Key tag = tagName \<and> Key tag = [])) (Vpc_Tags vpc)))
             (Vpc_VpcId vpc))
         (filter (\<lambda>vpc. Vpc_State vpc = ''available'' \<and> Vpc_Tags vpc \<noteq> []) VPCs))"
    using loop(1) by (simp add: entriesOf_def appended_def [abs_def] ready_def [abs_def])
  have all: "map VpcId result =
          concat (map (\<lambda>vpc. replicate (length (Vpc_Tags vpc)) (Vpc_VpcId vpc))
            (filter (\<lambda>vpc. Vpc_State vpc = ''available'' \<and> Vpc_Tags vpc \<noteq> []) VPCs))"
    if "tagName \<noteq> []"
  proof -
    have "filter (\<lambda>tag. \<not> (Key tag = tagName \<and> Key tag = [])) tags = tags" for tags :: "tag list"
      using that by (induction tags) auto
    then show ?thesis
      using ids by simp
  qed
  have cw1: "calls w1 = calls w @ [DescribeVpcs tagName]"
    by (simp add: w1_def getVPCs_calls)
  have c: "calls (snd (listTaggedVPC ec2Session tagName w)) =
       calls w @ DescribeVpcs tagName # concat (map resolveCalls (map VpcId result))"
    unfolding loop(1)
    using loop(2)
    by (simp add: listTaggedVPC_unfold calls_logf listed w1_def [symmetric] cw1
        concat_map_replicate)
  have d: "filter isDeleteVpc (calls (deleteVPC_loop ec2Session result w')) =
       filter isDeleteVpc (calls w') @ map DeleteVpc (map VpcId result)"
    by (simp add: calls_deleteVPC_loop deleteVpc_calls_of_loop comp_def)
  have c': "calls (snd (listTaggedVPC ec2Session tagName w)) =
       calls w @ DescribeVpcs tagName #
       concat (map (\<lambda>vpcId.
           [DescribeSecurityGroups vpcId, DescribeInternetGateways vpcId,
            DescribeSubnets vpcId, DescribeRouteTables vpcId])
         (map VpcId result))"
    using c unfolding resolveCalls_def [abs_def] .
  from r ids all c' d show ?thesis
    by blast
qed

theorem listTaggedVPC_entries_per_tag_witness:
  "describeVpcs (oneVpc [(''ttl'', ''3600''), (''Name'', ''x'')]) ''ttl'' = Inr
     [\<lparr>Vpc_VpcId = ''vpc-1'', Vpc_State = ''available'',
       Vpc_Tags = [(''ttl'', ''3600''), (''Name'', ''x'')]\<rparr>] \<and>
   (\<exists>result. fst (listTaggedVPC (oneVpc [(''ttl'', ''3600''), (''Name'', ''x'')]) ''ttl'' w0) = Inr result \<and>
      map VpcId result = [''vpc-1'', ''vpc-1''] \<and>
      filter isDeleteVpc (calls (deleteVPC_loop (oneVpc [(''ttl'', ''3600''), (''Name'', ''x'')]) result w0)) =
        [DeleteVpc ''vpc-1'', DeleteVpc ''vpc-1''])"
proof -
  have h: "describeVpcs (oneVpc [(''ttl'', ''3600''), (''Name'', ''x'')]) ''ttl'' = Inr
     [\<lparr>Vpc_VpcId = ''vpc-1'', Vpc_State = ''available'',
       Vpc_Tags = [(''ttl'', ''3600''), (''Name'', ''x'')]\<rparr>]"
    by (simp add: oneVpc_def emptyProvider_def)
  have n: "replicate 2 x = [x, x]" for x :: string
    by (simp add: numeral_2_eq_2)
  show ?thesis
    using h listTaggedVPC_entries_per_tag [OF h, of w0 w0] by (auto simp add: w0_def n)
qed

text \<open>
  C10, as stated, fails: with an empty \<open>tagName\<close>, a VPC that is \<open>available\<close> and
  carries two tags, one of them with an empty key, yields one entry, not two.
\<close>

theorem listTaggedVPC_entries_per_tag_counterexample:
  "describeVpcs (oneVpc [([], ''x''), (''ttl'', ''60'')]) [] = Inr
     [\<lparr>Vpc_VpcId = ''vpc-1'', Vpc_State = ''available'', Vpc_Tags = [([], ''x''), (''ttl'', ''60'')]\<rparr>] \<and>
   fst (listTaggedVPC (oneVpc [([], ''x''), (''ttl'', ''60'')]) [] w0) = Inr
     [\<lparr>VpcId = ''vpc-1'', SecurityGroups = [''sg-1''], InternetGateways = [''igw-1''],
       Subnets = [''subnet-1''], RouteTables = [''rtb-1''],
       VpcStatus = ''available'', VpcTTL = 60, Tag = []\<rparr>]"
  by code_simp

end
